theory Spec2Isabelle
  imports Main "HOL-Library.Word"
begin

section \<open>ArduinoLog: the level gate and the format interpreter\<close>

text \<open>
  A shallow embedding of \<^verbatim>\<open>src/ArduinoLog.h\<close> in its default build (neither
  \<^verbatim>\<open>DISABLE_LOGGING\<close> nor \<^verbatim>\<open>ESP8266\<close> defined). The logger writes to a
  \<^verbatim>\<open>Print\<close> object through a pointer that may be null; the model keeps the
  \<^verbatim>\<open>Print\<close> objects in a store indexed by address, and every operation that
  the C++ leaves undefined (a write through a null pointer, a read past the end of the
  format buffer, a \<^verbatim>\<open>va_arg\<close> that finds no argument of the requested type)
  is a \<open>fault\<close> of the model.
\<close>

subsection \<open>Faults, sinks and the store\<close>

datatype fault =
    Null_sink        \<comment> \<open>\<^verbatim>\<open>_logOutput->print\<close> with \<^verbatim>\<open>_logOutput == NULL\<close>\<close>
  | Out_of_bounds    \<comment> \<open>a read outside the buffer that holds the format, or outside \<^verbatim>\<open>levels\<close>\<close>
  | Bad_va_arg       \<comment> \<open>\<^verbatim>\<open>va_arg\<close> with no next argument, or one of another type\<close>
  | Hook_fault       \<comment> \<open>a fault inside a user-supplied hook\<close>

text \<open>A \<^verbatim>\<open>Print*\<close>: \<open>None\<close> is \<^verbatim>\<open>NULL\<close>, \<open>Some a\<close> the object at address \<open>a\<close>.\<close>

type_synonym Print_ptr = "nat option"

text \<open>The store: for each \<^verbatim>\<open>Print\<close> object, the characters it has received so far.\<close>

type_synonym world = "nat \<Rightarrow> string"

text \<open>\<^verbatim>\<open>typedef void (*printfunction)(Print*)\<close>: user code, which may write or fault.\<close>

type_synonym printfunction = "Print_ptr \<Rightarrow> world \<Rightarrow> fault + world"

definition and_then :: "fault + 'a \<Rightarrow> ('a \<Rightarrow> fault + 'b) \<Rightarrow> fault + 'b" where
  "and_then r k = (case r of Inl f \<Rightarrow> Inl f | Inr x \<Rightarrow> k x)"

definition NUL :: char where
  "NUL = CHR 0x00"

subsection \<open>The sink's operations\<close>

text \<open>
  Modelled from the spec: the class \<^verbatim>\<open>Print\<close> and the radix constants
  \<^verbatim>\<open>DEC\<close>, \<^verbatim>\<open>HEX\<close>, \<^verbatim>\<open>BIN\<close> belong to the Arduino core, which
  is not part of this repository. The spec asks of the sink: write one character, write a
  null-terminated character sequence, write an integer in a given radix; and of the
  renderings: decimal with no leading zeros and a minus sign if negative, lowercase
  hexadecimal with no prefix, binary digits with no prefix. The spec gives the sign rule
  for decimal only; the model applies it in every radix. The definitions of this
  subsection are that model.
\<close>

definition DEC :: nat where
  "DEC = 10"

definition HEX :: nat where
  "HEX = 16"

definition BIN :: nat where
  "BIN = 2"

text \<open>Modelled from the spec: the digits of a rendering, lowercase beyond 9.\<close>

definition digit_char :: "nat \<Rightarrow> char" where
  "digit_char d = ''0123456789abcdef'' ! (d mod 16)"

text \<open>Modelled from the spec: the digits of \<open>n\<close> in a radix, no leading zeros.\<close>

function printNumber :: "nat \<Rightarrow> nat \<Rightarrow> string" where
  "printNumber n base =
     (if base < 2 \<or> n < base then [digit_char n]
      else printNumber (n div base) base @ [digit_char (n mod base)])"
  by pat_completeness auto
termination
  by (relation "measure (\<lambda>(n, base). n)") auto

text \<open>Modelled from the spec: an integer in a radix, with a minus sign if negative.\<close>

definition render_int :: "int \<Rightarrow> nat \<Rightarrow> string" where
  "render_int n base = (if n < 0 then ''-'' else []) @ printNumber (nat \<bar>n\<bar>) base"

text \<open>
  Modelled from the spec: a write appends to what the sink has received. The call goes
  through the pointer, so a null pointer is a fault.
\<close>

definition sink_write :: "Print_ptr \<Rightarrow> string \<Rightarrow> world \<Rightarrow> fault + world" where
  "sink_write out s w = (case out of None \<Rightarrow> Inl Null_sink | Some a \<Rightarrow> Inr (w(a := w a @ s)))"

text \<open>Modelled from the spec: \<^verbatim>\<open>print(char)\<close> writes one character.\<close>

definition Print_char :: "Print_ptr \<Rightarrow> char \<Rightarrow> world \<Rightarrow> fault + world" where
  "Print_char out c w = sink_write out [c] w"

text \<open>
  Modelled from the spec: \<^verbatim>\<open>print(const char*)\<close> and its program-memory twin write
  the characters before the first terminator.
\<close>

definition Print_cstr :: "Print_ptr \<Rightarrow> string \<Rightarrow> world \<Rightarrow> fault + world" where
  "Print_cstr out s w = sink_write out (takeWhile (\<lambda>c. c \<noteq> NUL) s) w"

text \<open>Modelled from the spec: \<^verbatim>\<open>print(n, base)\<close> writes an integer in a radix.\<close>

definition Print_int :: "Print_ptr \<Rightarrow> int \<Rightarrow> nat \<Rightarrow> world \<Rightarrow> fault + world" where
  "Print_int out n base w = sink_write out (render_int n base) w"

subsection \<open>The logger's configuration\<close>

definition LOG_LEVEL_SILENT :: int where "LOG_LEVEL_SILENT = 0"
definition LOG_LEVEL_FATAL :: int where "LOG_LEVEL_FATAL = 1"
definition LOG_LEVEL_ERROR :: int where "LOG_LEVEL_ERROR = 2"
definition LOG_LEVEL_WARNING :: int where "LOG_LEVEL_WARNING = 3"
definition LOG_LEVEL_NOTICE :: int where "LOG_LEVEL_NOTICE = 4"
definition LOG_LEVEL_TRACE :: int where "LOG_LEVEL_TRACE = 5"
definition LOG_LEVEL_VERBOSE :: int where "LOG_LEVEL_VERBOSE = 6"

record Logging =
  level :: int
  showLevel :: bool
  logOutput :: Print_ptr
  prefix :: "printfunction option"
  suffix :: "printfunction option"

text \<open>The default constructor, with the in-class initialisers of the two hooks.\<close>

definition Logging_new :: Logging where
  "Logging_new = \<lparr>level = LOG_LEVEL_SILENT, showLevel = True, logOutput = None,
                   prefix = None, suffix = None\<rparr>"

text \<open>
  Modelled from the spec: \<^verbatim>\<open>constrain\<close> is a macro of the Arduino core, which is
  not part of this repository. The spec: values below the lower bound become the lower
  bound, values above the upper bound become the upper bound.
\<close>

definition constrain :: "int \<Rightarrow> int \<Rightarrow> int \<Rightarrow> int" where
  "constrain amt low high = (if amt < low then low else if amt > high then high else amt)"

definition setLevel :: "int \<Rightarrow> Logging \<Rightarrow> Logging" where
  "setLevel lv lg = lg\<lparr>level := constrain lv LOG_LEVEL_SILENT LOG_LEVEL_VERBOSE\<rparr>"

definition getLevel :: "Logging \<Rightarrow> int" where
  "getLevel lg = level lg"

definition setOutput :: "Print_ptr \<Rightarrow> Logging \<Rightarrow> Logging" where
  "setOutput output lg = lg\<lparr>logOutput := output\<rparr>"

definition setShowLevel :: "bool \<Rightarrow> Logging \<Rightarrow> Logging" where
  "setShowLevel b lg = lg\<lparr>showLevel := b\<rparr>"

definition getShowLevel :: "Logging \<Rightarrow> bool" where
  "getShowLevel lg = showLevel lg"

definition setPrefix :: "printfunction option \<Rightarrow> Logging \<Rightarrow> Logging" where
  "setPrefix f lg = lg\<lparr>prefix := f\<rparr>"

definition setSuffix :: "printfunction option \<Rightarrow> Logging \<Rightarrow> Logging" where
  "setSuffix f lg = lg\<lparr>suffix := f\<rparr>"

definition begin_log :: "int \<Rightarrow> Print_ptr \<Rightarrow> bool \<Rightarrow> Logging \<Rightarrow> Logging" where
  "begin_log lv output b lg = (setShowLevel b (setLevel lv lg))\<lparr>logOutput := output\<rparr>"

subsection \<open>The variadic argument list\<close>

text \<open>
  The arguments of a logging call after the default argument promotions: a
  \<^verbatim>\<open>char\<close>, a \<^verbatim>\<open>bool\<close> or a \<^verbatim>\<open>short\<close> arrives as an \<^verbatim>\<open>int\<close>.
  A pointer argument is represented by the characters of the buffer it points to, a
  \<^verbatim>\<open>double\<close> by the text that the sink's \<^verbatim>\<open>print(double)\<close> gives for it
  (floating point is not modelled).
\<close>

datatype arg =
    Arg_int int
  | Arg_long int
  | Arg_ulong nat
  | Arg_double string
  | Arg_cstr string
  | Arg_flash string
  | Arg_String string
  | Arg_IPAddress "8 word" "8 word" "8 word" "8 word"

type_synonym va_list = "arg list"

text \<open>
  \<^verbatim>\<open>va_arg(*args, T)\<close>, one function for each \<open>T\<close> the source asks for. The source
  reads the two pointer types through \<^verbatim>\<open>int\<close> and casts; the model takes a pointer
  and an \<^verbatim>\<open>int\<close> to have the same size, as on the targets of the library.
\<close>

fun va_arg_int :: "va_list \<Rightarrow> fault + (int \<times> va_list)" where
  "va_arg_int (Arg_int n # rest) = Inr (n, rest)"
| "va_arg_int _ = Inl Bad_va_arg"

fun va_arg_long :: "va_list \<Rightarrow> fault + (int \<times> va_list)" where
  "va_arg_long (Arg_long n # rest) = Inr (n, rest)"
| "va_arg_long _ = Inl Bad_va_arg"

fun va_arg_ulong :: "va_list \<Rightarrow> fault + (nat \<times> va_list)" where
  "va_arg_ulong (Arg_ulong n # rest) = Inr (n, rest)"
| "va_arg_ulong _ = Inl Bad_va_arg"

fun va_arg_double :: "va_list \<Rightarrow> fault + (string \<times> va_list)" where
  "va_arg_double (Arg_double s # rest) = Inr (s, rest)"
| "va_arg_double _ = Inl Bad_va_arg"

fun va_arg_cstr :: "va_list \<Rightarrow> fault + (string \<times> va_list)" where
  "va_arg_cstr (Arg_cstr s # rest) = Inr (s, rest)"
| "va_arg_cstr _ = Inl Bad_va_arg"

fun va_arg_flash :: "va_list \<Rightarrow> fault + (string \<times> va_list)" where
  "va_arg_flash (Arg_flash s # rest) = Inr (s, rest)"
| "va_arg_flash _ = Inl Bad_va_arg"

fun va_arg_String :: "va_list \<Rightarrow> fault + (string \<times> va_list)" where
  "va_arg_String (Arg_String s # rest) = Inr (s, rest)"
| "va_arg_String _ = Inl Bad_va_arg"

fun va_arg_IPAddress :: "va_list \<Rightarrow> fault + ((8 word \<times> 8 word \<times> 8 word \<times> 8 word) \<times> va_list)" where
  "va_arg_IPAddress (Arg_IPAddress a b c d # rest) = Inr ((a, b, c, d), rest)"
| "va_arg_IPAddress _ = Inl Bad_va_arg"

text \<open>
  \<^verbatim>\<open>sprintf(s, "%d.%d.%d.%d", ip[0], ip[1], ip[2], ip[3])\<close> into \<^verbatim>\<open>char s[16]\<close>:
  four octets of at most three digits and three dots, fifteen characters at most. The
  \<^verbatim>\<open>%d\<close> of the C library is the decimal rendering of the octet.
\<close>

definition sprintf_ip :: "8 word \<times> 8 word \<times> 8 word \<times> 8 word \<Rightarrow> string" where
  "sprintf_ip ip = (case ip of (a, b, c, d) \<Rightarrow>
     render_int (uint a) 10 @ ''.'' @ render_int (uint b) 10 @ ''.'' @
     render_int (uint c) 10 @ ''.'' @ render_int (uint d) 10)"

subsection \<open>The format interpreter\<close>

text \<open>\<^verbatim>\<open>Logging::printFormat\<close>: one conversion, the branches in the source's order.\<close>

definition printFormat ::
  "char \<Rightarrow> va_list \<Rightarrow> Print_ptr \<Rightarrow> world \<Rightarrow> fault + (va_list \<times> world)" where
  "printFormat format args out w =
    (if format = CHR ''%'' then
       and_then (Print_char out format w) (\<lambda>w'. Inr (args, w'))
     else if format = CHR ''s'' then
       and_then (va_arg_cstr args) (\<lambda>(s, args').
       and_then (Print_cstr out s w) (\<lambda>w'. Inr (args', w')))
     else if format = CHR ''S'' then
       and_then (va_arg_String args) (\<lambda>(s, args').
       and_then (sink_write out s w) (\<lambda>w'. Inr (args', w')))
     else if format = CHR ''I'' then
       and_then (va_arg_IPAddress args) (\<lambda>(ip, args').
       and_then (Print_cstr out (sprintf_ip ip) w) (\<lambda>w'. Inr (args', w')))
     else if format = CHR ''P'' then
       and_then (va_arg_flash args) (\<lambda>(s, args').
       and_then (Print_cstr out s w) (\<lambda>w'. Inr (args', w')))
     else if format = CHR ''d'' \<or> format = CHR ''i'' then
       and_then (va_arg_int args) (\<lambda>(n, args').
       and_then (Print_int out n DEC w) (\<lambda>w'. Inr (args', w')))
     else if format = CHR ''D'' \<or> format = CHR ''F'' then
       and_then (va_arg_double args) (\<lambda>(s, args').
       and_then (sink_write out s w) (\<lambda>w'. Inr (args', w')))
     else if format = CHR ''x'' then
       and_then (va_arg_int args) (\<lambda>(n, args').
       and_then (Print_int out n HEX w) (\<lambda>w'. Inr (args', w')))
     else if format = CHR ''X'' then
       and_then (Print_cstr out ''0x'' w) (\<lambda>w1.
       and_then (va_arg_int args) (\<lambda>(n, args').
       and_then (Print_int out n HEX w1) (\<lambda>w'. Inr (args', w'))))
     else if format = CHR ''b'' then
       and_then (va_arg_int args) (\<lambda>(n, args').
       and_then (Print_int out n BIN w) (\<lambda>w'. Inr (args', w')))
     else if format = CHR ''B'' then
       and_then (Print_cstr out ''0b'' w) (\<lambda>w1.
       and_then (va_arg_int args) (\<lambda>(n, args').
       and_then (Print_int out n BIN w1) (\<lambda>w'. Inr (args', w'))))
     else if format = CHR ''l'' then
       and_then (va_arg_long args) (\<lambda>(n, args').
       and_then (Print_int out n DEC w) (\<lambda>w'. Inr (args', w')))
     else if format = CHR ''u'' then
       and_then (va_arg_ulong args) (\<lambda>(n, args').
       and_then (Print_int out (int n) DEC w) (\<lambda>w'. Inr (args', w')))
     else if format = CHR ''c'' then
       and_then (va_arg_int args) (\<lambda>(n, args').
       and_then (Print_char out (char_of n) w) (\<lambda>w'. Inr (args', w')))
     else if format = CHR ''t'' then
       and_then (va_arg_int args) (\<lambda>(n, args').
       and_then (if n = 1 then Print_cstr out ''T'' w else Print_cstr out ''F'' w)
         (\<lambda>w'. Inr (args', w')))
     else if format = CHR ''T'' then
       and_then (va_arg_int args) (\<lambda>(n, args').
       and_then (if n = 1 then Print_cstr out ''true'' w else Print_cstr out ''false'' w)
         (\<lambda>w'. Inr (args', w')))
     else Inr (args, w))"

text \<open>
  The format is read from a buffer; a literal \<^verbatim>\<open>"abc"\<close> is the buffer
  \<open>cstr ''abc''\<close>, and a read at an index outside the buffer is a fault.
\<close>

definition cstr :: "string \<Rightarrow> string" where
  "cstr s = s @ [NUL]"

text \<open>
  \<^verbatim>\<open>Logging::print(const char *format, va_list args)\<close>: \<open>i\<close> is the position of
  \<^verbatim>\<open>format\<close> in its buffer. After a conversion the loop's \<^verbatim>\<open>++format\<close> steps
  over the specifier, whatever it was.
\<close>

function print_ram :: "string \<Rightarrow> nat \<Rightarrow> va_list \<Rightarrow> Print_ptr \<Rightarrow> world \<Rightarrow> fault + world" where
  "print_ram buf i args out w =
    (if length buf \<le> i then Inl Out_of_bounds
     else if buf ! i = NUL then Inr w
     else if buf ! i = CHR ''%'' then
       (if length buf \<le> i + 1 then Inl Out_of_bounds
        else (case printFormat (buf ! (i + 1)) args out w of
                Inl f \<Rightarrow> Inl f
              | Inr (args', w') \<Rightarrow> print_ram buf (i + 2) args' out w'))
     else (case Print_char out (buf ! i) w of
             Inl f \<Rightarrow> Inl f
           | Inr w' \<Rightarrow> print_ram buf (i + 1) args out w'))"
  by pat_completeness auto
termination
  by (relation "measure (\<lambda>(buf, i, args, out, w). length buf - i)") auto

text \<open>\<^verbatim>\<open>pgm_read_byte(p++)\<close> on the buffer in program memory.\<close>

definition pgm_read_byte :: "string \<Rightarrow> nat \<Rightarrow> fault + char" where
  "pgm_read_byte buf p = (if p < length buf then Inr (buf ! p) else Inl Out_of_bounds)"

text \<open>
  \<^verbatim>\<open>Logging::print(const __FlashStringHelper *format, va_list args)\<close>: the loop
  with its two variables, the character \<open>c\<close> read last and the position \<open>p\<close> of the
  next read.
\<close>

function print_flash_loop ::
  "string \<Rightarrow> char \<Rightarrow> nat \<Rightarrow> va_list \<Rightarrow> Print_ptr \<Rightarrow> world \<Rightarrow> fault + world" where
  "print_flash_loop buf c p args out w =
    (if c = NUL then Inr w
     else if c = CHR ''%'' then
       (case pgm_read_byte buf p of
          Inl f \<Rightarrow> Inl f
        | Inr c1 \<Rightarrow>
            (case printFormat c1 args out w of
               Inl f \<Rightarrow> Inl f
             | Inr (args', w') \<Rightarrow>
                 (case pgm_read_byte buf (p + 1) of
                    Inl f \<Rightarrow> Inl f
                  | Inr c2 \<Rightarrow> print_flash_loop buf c2 (p + 2) args' out w')))
     else (case Print_char out c w of
             Inl f \<Rightarrow> Inl f
           | Inr w' \<Rightarrow>
               (case pgm_read_byte buf p of
                  Inl f \<Rightarrow> Inl f
                | Inr c2 \<Rightarrow> print_flash_loop buf c2 (p + 1) args out w')))"
  by pat_completeness auto
termination
  by (relation "measure (\<lambda>(buf, c, p, args, out, w). Suc (length buf) - p)")
     (auto simp: pgm_read_byte_def split: if_splits)

definition print_flash :: "string \<Rightarrow> va_list \<Rightarrow> Print_ptr \<Rightarrow> world \<Rightarrow> fault + world" where
  "print_flash buf args out w =
     (case pgm_read_byte buf 0 of
        Inl f \<Rightarrow> Inl f
      | Inr c \<Rightarrow> print_flash_loop buf c 1 args out w)"

text \<open>
  The template parameter \<^verbatim>\<open>T\<close> of the entry points: the format is a
  \<^verbatim>\<open>const char*\<close> or a \<^verbatim>\<open>const __FlashStringHelper*\<close>, and overload
  resolution picks the \<^verbatim>\<open>print\<close> for it.
\<close>

datatype msg = Ram string | Progmem string

definition print :: "msg \<Rightarrow> va_list \<Rightarrow> Print_ptr \<Rightarrow> world \<Rightarrow> fault + world" where
  "print m args out w =
     (case m of Ram buf \<Rightarrow> print_ram buf 0 args out w
              | Progmem buf \<Rightarrow> print_flash buf args out w)"

subsection \<open>The level gate\<close>

text \<open>\<^verbatim>\<open>static const char levels[] = "FEWNTV"\<close>, seven bytes with its terminator.\<close>

definition levels :: "int \<Rightarrow> fault + char" where
  "levels i = (if 0 \<le> i \<and> i < 7 then Inr (cstr ''FEWNTV'' ! nat i) else Inl Out_of_bounds)"

definition call_hook :: "printfunction option \<Rightarrow> Print_ptr \<Rightarrow> world \<Rightarrow> fault + world" where
  "call_hook h out w = (case h of None \<Rightarrow> Inr w | Some f \<Rightarrow> f out w)"

definition printLevel :: "int \<Rightarrow> msg \<Rightarrow> va_list \<Rightarrow> Logging \<Rightarrow> world \<Rightarrow> fault + world" where
  "printLevel lv m args lg w =
    (if lv > level lg then Inr w
     else
       and_then (call_hook (prefix lg) (logOutput lg) w) (\<lambda>w1.
       and_then (if showLevel lg
                 then and_then (levels (lv - 1)) (\<lambda>c.
                      and_then (Print_char (logOutput lg) c w1) (\<lambda>w2.
                      Print_cstr (logOutput lg) '': '' w2))
                 else Inr w1) (\<lambda>w3.
       and_then (print m args (logOutput lg) w3) (\<lambda>w4.
       call_hook (suffix lg) (logOutput lg) w4))))"

definition fatal :: "msg \<Rightarrow> va_list \<Rightarrow> Logging \<Rightarrow> world \<Rightarrow> fault + world" where
  "fatal m args lg w = printLevel LOG_LEVEL_FATAL m args lg w"

definition error :: "msg \<Rightarrow> va_list \<Rightarrow> Logging \<Rightarrow> world \<Rightarrow> fault + world" where
  "error m args lg w = printLevel LOG_LEVEL_ERROR m args lg w"

definition warning :: "msg \<Rightarrow> va_list \<Rightarrow> Logging \<Rightarrow> world \<Rightarrow> fault + world" where
  "warning m args lg w = printLevel LOG_LEVEL_WARNING m args lg w"

definition notice :: "msg \<Rightarrow> va_list \<Rightarrow> Logging \<Rightarrow> world \<Rightarrow> fault + world" where
  "notice m args lg w = printLevel LOG_LEVEL_NOTICE m args lg w"

definition trace :: "msg \<Rightarrow> va_list \<Rightarrow> Logging \<Rightarrow> world \<Rightarrow> fault + world" where
  "trace m args lg w = printLevel LOG_LEVEL_TRACE m args lg w"

definition verbose :: "msg \<Rightarrow> va_list \<Rightarrow> Logging \<Rightarrow> world \<Rightarrow> fault + world" where
  "verbose m args lg w = printLevel LOG_LEVEL_VERBOSE m args lg w"


subsection \<open>What a call writes\<close>

text \<open>
  The recursive equations of the two loops are unfolded by hand, one step at a time.
\<close>

declare printNumber.simps [simp del]
declare print_ram.simps [simp del]
declare print_flash_loop.simps [simp del]

text \<open>
  The text of a conversion, of the rest of a format from a position, and of a whole
  message body: what the interpreter writes on a sink that has received nothing yet.
\<close>

definition conversion_text :: "char \<Rightarrow> va_list \<Rightarrow> fault + (va_list \<times> string)" where
  "conversion_text c args =
     (case printFormat c args (Some 0) (\<lambda>_. []) of
        Inl f \<Rightarrow> Inl f
      | Inr (args', w0) \<Rightarrow> Inr (args', w0 0))"

definition ram_text :: "string \<Rightarrow> nat \<Rightarrow> va_list \<Rightarrow> fault + string" where
  "ram_text buf i args =
     (case print_ram buf i args (Some 0) (\<lambda>_. []) of
        Inl f \<Rightarrow> Inl f
      | Inr w0 \<Rightarrow> Inr (w0 0))"

definition body_text :: "msg \<Rightarrow> va_list \<Rightarrow> fault + string" where
  "body_text m args =
     (case print m args (Some 0) (\<lambda>_. []) of
        Inl f \<Rightarrow> Inl f
      | Inr w0 \<Rightarrow> Inr (w0 0))"

text \<open>A hook that writes a fixed text to the sink it is given.\<close>

definition hook_writing :: "string \<Rightarrow> printfunction" where
  "hook_writing s out w = sink_write out s w"

text \<open>
  The six entry points, each with the severity it passes to \<^verbatim>\<open>printLevel\<close> and
  the letter that stands for it.
\<close>

definition entry_points ::
  "((msg \<Rightarrow> va_list \<Rightarrow> Logging \<Rightarrow> world \<Rightarrow> fault + world) \<times> int \<times> char) list" where
  "entry_points =
     [(fatal, LOG_LEVEL_FATAL, CHR ''F''), (error, LOG_LEVEL_ERROR, CHR ''E''),
      (warning, LOG_LEVEL_WARNING, CHR ''W''), (notice, LOG_LEVEL_NOTICE, CHR ''N''),
      (trace, LOG_LEVEL_TRACE, CHR ''T''), (verbose, LOG_LEVEL_VERBOSE, CHR ''V'')]"

section \<open>Properties\<close>

subsection \<open>Auxiliary facts\<close>

lemma and_then_Inl: "and_then (Inl f) k = Inl f"
  by (simp add: and_then_def)

lemma and_then_Inr: "and_then (Inr x) k = k x"
  by (simp add: and_then_def)

lemma sink_write_Some: "sink_write (Some a) s w = Inr (w(a := w a @ s))"
  by (simp add: sink_write_def)

lemma sink_write_None: "sink_write None s w = Inl Null_sink"
  by (simp add: sink_write_def)

lemmas sink_defs = Print_char_def Print_cstr_def Print_int_def sink_write_Some

lemma printFormat_unrecognized:
  "c \<notin> set ''%sSIPdiDFxXbBluctT'' \<Longrightarrow> printFormat c args out w = Inr (args, w)"
  by (simp add: printFormat_def)

lemma printFormat_frame:
  "printFormat c args (Some a) w =
     (case conversion_text c args of
        Inl f \<Rightarrow> Inl f
      | Inr (args', s) \<Rightarrow> Inr (args', w(a := w a @ s)))"
proof (cases "c \<in> set ''%sSIPdiDFxXbBluctT''")
  case False
  then show ?thesis
    by (simp add: conversion_text_def printFormat_unrecognized del: set_simps)
next
  case True
  then have "c = CHR ''%'' \<or> c = CHR ''s'' \<or> c = CHR ''S'' \<or> c = CHR ''I''
    \<or> c = CHR ''P'' \<or> c = CHR ''d'' \<or> c = CHR ''i'' \<or> c = CHR ''D'' \<or> c = CHR ''F''
    \<or> c = CHR ''x'' \<or> c = CHR ''X'' \<or> c = CHR ''b'' \<or> c = CHR ''B'' \<or> c = CHR ''l''
    \<or> c = CHR ''u'' \<or> c = CHR ''c'' \<or> c = CHR ''t'' \<or> c = CHR ''T''"
    by simp
  then show ?thesis
    by (elim disjE)
      (simp_all add: conversion_text_def printFormat_def sink_defs and_then_def
         split: sum.splits prod.splits)
qed


lemma print_ram_oob: "length buf \<le> i \<Longrightarrow> print_ram buf i args out w = Inl Out_of_bounds"
  by (subst print_ram.simps) simp

lemma print_ram_NUL:
  "i < length buf \<Longrightarrow> buf ! i = NUL \<Longrightarrow> print_ram buf i args out w = Inr w"
  by (subst print_ram.simps) simp

lemma print_ram_conv:
  "i < length buf \<Longrightarrow> buf ! i = CHR ''%'' \<Longrightarrow>
   print_ram buf i args out w =
     (if length buf \<le> i + 1 then Inl Out_of_bounds
      else (case printFormat (buf ! (i + 1)) args out w of
              Inl f \<Rightarrow> Inl f
            | Inr (args', w') \<Rightarrow> print_ram buf (i + 2) args' out w'))"
  by (subst print_ram.simps) (simp add: NUL_def)

lemma print_ram_char:
  "i < length buf \<Longrightarrow> buf ! i \<noteq> NUL \<Longrightarrow> buf ! i \<noteq> CHR ''%'' \<Longrightarrow>
   print_ram buf i args out w =
     (case Print_char out (buf ! i) w of
        Inl f \<Rightarrow> Inl f
      | Inr w' \<Rightarrow> print_ram buf (i + 1) args out w')"
  by (subst print_ram.simps) simp

lemma print_ram_frame:
  "print_ram buf i args (Some a) w =
     (case ram_text buf i args of
        Inl f \<Rightarrow> Inl f
      | Inr t \<Rightarrow> Inr (w(a := w a @ t)))"
proof (induction "length buf - i" arbitrary: i args a w rule: less_induct)
  case less
  show ?case
  proof (cases "length buf \<le> i")
    case True
    then show ?thesis
      by (simp add: ram_text_def print_ram_oob)
  next
    case False
    then have i: "i < length buf" by simp
    show ?thesis
    proof (cases "buf ! i = NUL")
      case True
      with i show ?thesis
        by (simp add: ram_text_def print_ram_NUL)
    next
      case notnul: False
      show ?thesis
      proof (cases "buf ! i = CHR ''%''")
        case True
        show ?thesis
        proof (cases "length buf \<le> i + 1")
          case True
          with i \<open>buf ! i = CHR ''%''\<close> show ?thesis
            by (simp add: ram_text_def print_ram_conv)
        next
          case False
          then have dec: "length buf - (i + 2) < length buf - i" by simp
          have IH: "print_ram buf (Suc (Suc i)) args' (Some b) v =
              (case ram_text buf (Suc (Suc i)) args' of
                 Inl f \<Rightarrow> Inl f
               | Inr t \<Rightarrow> Inr (v(b := v b @ t)))" for args' b v
            using less.hyps [OF dec, of args' b v] by simp
          have step: "print_ram buf i args (Some b) v =
              (case conversion_text (buf ! (i + 1)) args of
                 Inl f \<Rightarrow> Inl f
               | Inr (args', s) \<Rightarrow>
                   (case ram_text buf (i + 2) args' of
                      Inl f \<Rightarrow> Inl f
                    | Inr t \<Rightarrow> Inr (v(b := v b @ s @ t))))" for b v
            using i \<open>buf ! i = CHR ''%''\<close> False
            by (simp add: print_ram_conv printFormat_frame IH
                  split: sum.splits prod.splits)
          show ?thesis
            by (simp add: ram_text_def [of buf i] step split: sum.splits prod.splits)
        qed
      next
        case False
        from i have dec: "length buf - (i + 1) < length buf - i" by simp
        have IH: "print_ram buf (Suc i) args (Some b) v =
            (case ram_text buf (Suc i) args of
               Inl f \<Rightarrow> Inl f
             | Inr t \<Rightarrow> Inr (v(b := v b @ t)))" for b v
          using less.hyps [OF dec, of args b v] by simp
        have step: "print_ram buf i args (Some b) v =
            (case ram_text buf (i + 1) args of
               Inl f \<Rightarrow> Inl f
             | Inr t \<Rightarrow> Inr (v(b := v b @ buf ! i # t)))" for b v
          using i notnul False
          by (simp add: print_ram_char Print_char_def sink_write_Some IH
                split: sum.splits)
        show ?thesis
          by (simp add: ram_text_def [of buf i] step split: sum.splits)
      qed
    qed
  qed
qed

lemma print_flash_loop_NUL: "print_flash_loop buf NUL p args out w = Inr w"
  by (subst print_flash_loop.simps) simp

lemma print_flash_loop_conv:
  "print_flash_loop buf (CHR ''%'') p args out w =
     (case pgm_read_byte buf p of
        Inl f \<Rightarrow> Inl f
      | Inr c1 \<Rightarrow>
          (case printFormat c1 args out w of
             Inl f \<Rightarrow> Inl f
           | Inr (args', w') \<Rightarrow>
               (case pgm_read_byte buf (p + 1) of
                  Inl f \<Rightarrow> Inl f
                | Inr c2 \<Rightarrow> print_flash_loop buf c2 (p + 2) args' out w')))"
  by (subst print_flash_loop.simps) (simp add: NUL_def)

lemma print_flash_loop_char:
  "c \<noteq> NUL \<Longrightarrow> c \<noteq> CHR ''%'' \<Longrightarrow>
   print_flash_loop buf c p args out w =
     (case Print_char out c w of
        Inl f \<Rightarrow> Inl f
      | Inr w' \<Rightarrow>
          (case pgm_read_byte buf p of
             Inl f \<Rightarrow> Inl f
           | Inr c2 \<Rightarrow> print_flash_loop buf c2 (p + 1) args out w'))"
  by (subst print_flash_loop.simps) simp

lemma print_flash_loop_eq:
  "i < length buf \<Longrightarrow>
   print_flash_loop buf (buf ! i) (Suc i) args out w = print_ram buf i args out w"
proof (induction buf i args out w rule: print_ram.induct)
  case (1 buf i args out w)
  show ?case
  proof (cases "buf ! i = NUL")
    case True
    with "1.prems" show ?thesis
      by (simp add: print_ram_NUL print_flash_loop_NUL)
  next
    case notnul: False
    show ?thesis
    proof (cases "buf ! i = CHR ''%''")
      case True
      show ?thesis
      proof (cases "length buf \<le> i + 1")
        case True
        with "1.prems" \<open>buf ! i = CHR ''%''\<close> show ?thesis
          by (simp add: print_ram_conv print_flash_loop_conv
                pgm_read_byte_def NUL_def)
      next
        case False
        show ?thesis
        proof (cases "printFormat (buf ! (i + 1)) args out w")
          case (Inl f)
          with "1.prems" \<open>buf ! i = CHR ''%''\<close> False show ?thesis
            by (simp add: print_ram_conv print_flash_loop_conv
                  pgm_read_byte_def NUL_def)
        next
          case (Inr r)
          obtain args' w' where r: "r = (args', w')" by (cases r)
          have IH: "i + 2 < length buf \<Longrightarrow>
              print_flash_loop buf (buf ! (i + 2)) (Suc (i + 2)) args' out w' =
              print_ram buf (i + 2) args' out w'"
            using "1.IH"(1) [of "(args', w')" args' w'] "1.prems" notnul
              \<open>buf ! i = CHR ''%''\<close> False Inr r
            by simp
          show ?thesis
          proof (cases "i + 2 < length buf")
            case True
            with IH "1.prems" \<open>buf ! i = CHR ''%''\<close> False Inr r show ?thesis
              by (simp add: print_ram_conv print_flash_loop_conv
                    pgm_read_byte_def NUL_def)
          next
            case oob: False
            then have "print_ram buf (i + 2) args' out w' = Inl Out_of_bounds"
              by (simp add: print_ram_oob)
            with oob "1.prems" \<open>buf ! i = CHR ''%''\<close> False Inr r show ?thesis
              by (simp add: print_ram_conv print_flash_loop_conv
                    pgm_read_byte_def NUL_def)
          qed
        qed
      qed
    next
      case False
      show ?thesis
      proof (cases "Print_char out (buf ! i) w")
        case (Inl f)
        with "1.prems" notnul False show ?thesis
          by (simp add: print_ram_char print_flash_loop_char)
      next
        case (Inr w')
        have IH: "i + 1 < length buf \<Longrightarrow>
            print_flash_loop buf (buf ! (i + 1)) (Suc (i + 1)) args out w' =
            print_ram buf (i + 1) args out w'"
          using "1.IH"(2) [of w'] "1.prems" notnul False Inr
          by simp
        show ?thesis
        proof (cases "i + 1 < length buf")
          case True
          with IH "1.prems" notnul False Inr show ?thesis
            by (simp add: print_ram_char print_flash_loop_char
                  pgm_read_byte_def)
        next
          case oob: False
          then have "print_ram buf (i + 1) args out w' = Inl Out_of_bounds"
            by (simp add: print_ram_oob)
          with oob "1.prems" notnul False Inr show ?thesis
            by (simp add: print_ram_char print_flash_loop_char
                  pgm_read_byte_def)
        qed
      qed
    qed
  qed
qed

lemma print_flash_eq: "print_flash buf args out w = print_ram buf 0 args out w"
proof (cases "0 < length buf")
  case True
  then show ?thesis
    using print_flash_loop_eq [of 0 buf args out w]
    by (simp add: print_flash_def pgm_read_byte_def)
next
  case False
  then show ?thesis
    by (simp add: print_flash_def pgm_read_byte_def print_ram_oob)
qed


lemmas level_defs = LOG_LEVEL_SILENT_def LOG_LEVEL_FATAL_def LOG_LEVEL_ERROR_def
  LOG_LEVEL_WARNING_def LOG_LEVEL_NOTICE_def LOG_LEVEL_TRACE_def LOG_LEVEL_VERBOSE_def

lemmas entry_defs = fatal_def error_def warning_def notice_def trace_def verbose_def

lemma entry_points_cases:
  assumes "(entry, L, c) \<in> set entry_points"
  shows "entry = (\<lambda>m args lg w. printLevel L m args lg w) \<and> 1 \<le> L \<and> L \<le> 6
         \<and> levels (L - 1) = Inr c"
proof -
  have eq: "fatal = printLevel LOG_LEVEL_FATAL" "error = printLevel LOG_LEVEL_ERROR"
    "warning = printLevel LOG_LEVEL_WARNING" "notice = printLevel LOG_LEVEL_NOTICE"
    "trace = printLevel LOG_LEVEL_TRACE" "verbose = printLevel LOG_LEVEL_VERBOSE"
    by (simp_all add: entry_defs fun_eq_iff)
  from assms show ?thesis
    unfolding entry_points_def
    by (auto simp: eq level_defs levels_def cstr_def)
qed

subsection \<open>The configuration\<close>

text \<open>
  Claim C4. For every integer \<open>v\<close>, \<^verbatim>\<open>setLevel(v)\<close> stores \<open>v\<close> clamped into the
  range from \<^verbatim>\<open>LOG_LEVEL_SILENT\<close> to \<^verbatim>\<open>LOG_LEVEL_VERBOSE\<close> and signals no
  error (it returns the updated logger for every \<open>v\<close>); \<^verbatim>\<open>setLevel(-5)\<close> gives the
  same logger as \<^verbatim>\<open>setLevel(LOG_LEVEL_SILENT)\<close> and \<^verbatim>\<open>setLevel(99)\<close> the same
  as \<^verbatim>\<open>setLevel(LOG_LEVEL_VERBOSE)\<close>; \<^verbatim>\<open>begin\<close> clamps its level the same way.
\<close>

theorem setLevel_clamps:
  "level (setLevel v lg) = max LOG_LEVEL_SILENT (min LOG_LEVEL_VERBOSE v)
   \<and> LOG_LEVEL_SILENT \<le> level (setLevel v lg) \<and> level (setLevel v lg) \<le> LOG_LEVEL_VERBOSE
   \<and> setLevel (- 5) lg = setLevel LOG_LEVEL_SILENT lg
   \<and> setLevel 99 lg = setLevel LOG_LEVEL_VERBOSE lg
   \<and> level (begin_log v output b lg) = level (setLevel v lg)"
  by (simp add: setLevel_def begin_log_def setShowLevel_def constrain_def level_defs)

text \<open>
  Claim C9. For every \<open>v\<close> between \<^verbatim>\<open>LOG_LEVEL_SILENT\<close> and
  \<^verbatim>\<open>LOG_LEVEL_VERBOSE\<close>, \<^verbatim>\<open>getLevel\<close> returns \<open>v\<close> after
  \<^verbatim>\<open>setLevel(v)\<close>; for every boolean \<open>b\<close>, \<^verbatim>\<open>getShowLevel\<close> returns \<open>b\<close>
  after \<^verbatim>\<open>setShowLevel(b)\<close>.
\<close>

theorem getters_round_trip:
  assumes "LOG_LEVEL_SILENT \<le> v" and "v \<le> LOG_LEVEL_VERBOSE"
  shows "getLevel (setLevel v lg) = v \<and> getShowLevel (setShowLevel b lg) = b"
  using assms
  by (simp add: getLevel_def setLevel_def getShowLevel_def setShowLevel_def constrain_def
        level_defs)

theorem getters_round_trip_witness:
  "getLevel (setLevel 3 Logging_new) = 3 \<and> getShowLevel (setShowLevel False Logging_new) = False
   \<and> LOG_LEVEL_SILENT \<le> 3 \<and> 3 \<le> LOG_LEVEL_VERBOSE"
proof -
  have lo: "LOG_LEVEL_SILENT \<le> 3" and hi: "3 \<le> LOG_LEVEL_VERBOSE"
    by (simp_all add: level_defs)
  from getters_round_trip [OF lo hi, of Logging_new False] lo hi show ?thesis
    by simp
qed

subsection \<open>The two format paths\<close>

text \<open>
  Claim C8. For every format buffer, argument list, sink and store, the
  \<^verbatim>\<open>print\<close> that reads the format from program memory and the one that reads it
  from normal memory give the same result: the same text on the sink, or the same fault.
\<close>

theorem print_paths_agree:
  "print (Progmem buf) args out w = print (Ram buf) args out w"
  by (simp add: print_def print_flash_eq)

subsection \<open>The level gate\<close>

text \<open>
  Claim C2. When the severity of an entry point exceeds the threshold, the call returns
  with the store unchanged, whatever the sink, the format, the arguments and the two
  hooks are: nothing is written and no hook runs, since a hook that ran could change the
  store or fault.
\<close>

theorem gate_closed_no_effect:
  assumes "(entry, L, c) \<in> set entry_points" and "level lg < L"
  shows "entry m args lg w = Inr w"
  using entry_points_cases [OF assms(1)] assms(2)
  by (simp add: printLevel_def)

theorem gate_closed_no_effect_witness:
  "(notice, LOG_LEVEL_NOTICE, CHR ''N'') \<in> set entry_points
   \<and> level (setSuffix (Some (\<lambda>out w. Inl Hook_fault))
             (setPrefix (Some (hook_writing ''called''))
               (begin_log LOG_LEVEL_WARNING (Some 0) True Logging_new))) < LOG_LEVEL_NOTICE
   \<and> notice (Ram (cstr ''n=%d'')) [Arg_int 1]
        (setSuffix (Some (\<lambda>out w. Inl Hook_fault))
          (setPrefix (Some (hook_writing ''called''))
            (begin_log LOG_LEVEL_WARNING (Some 0) True Logging_new))) (\<lambda>_. []) = Inr (\<lambda>_. [])"
proof -
  let ?lg = "setSuffix (Some (\<lambda>out w. Inl Hook_fault))
          (setPrefix (Some (hook_writing ''called''))
            (begin_log LOG_LEVEL_WARNING (Some 0) True Logging_new))"
  have mem: "(notice, LOG_LEVEL_NOTICE, CHR ''N'') \<in> set entry_points"
    by (simp add: entry_points_def)
  have lt: "level ?lg < LOG_LEVEL_NOTICE"
    by (simp add: setSuffix_def setPrefix_def begin_log_def setShowLevel_def setLevel_def
          constrain_def level_defs)
  from gate_closed_no_effect [OF mem lt] mem lt show ?thesis
    by simp
qed

text \<open>
  When the gate is open and the sink is set, a call runs the prefix hook, appends the
  level indicator and the body to the sink, and runs the suffix hook.
\<close>

lemmas eval_simps = print_def cstr_def NUL_def print_ram.simps printFormat_def and_then_def
  sink_defs render_int_def DEC_def HEX_def BIN_def digit_char_def printNumber.simps

lemma body_text_ram:
  "body_text m args = ram_text (case m of Ram b \<Rightarrow> b | Progmem b \<Rightarrow> b) 0 args"
  by (cases m) (simp_all add: body_text_def ram_text_def print_def print_flash_eq)

lemma print_frame:
  "print m args (Some a) w =
     (case body_text m args of
        Inl f \<Rightarrow> Inl f
      | Inr t \<Rightarrow> Inr (w(a := w a @ t)))"
  by (cases m) (simp_all add: body_text_ram print_def print_flash_eq print_ram_frame)

lemma printLevel_open:
  assumes "L \<le> level lg" and "logOutput lg = Some a" and "levels (L - 1) = Inr c"
    and "body_text m args = Inr body"
  shows "printLevel L m args lg w =
     and_then (call_hook (prefix lg) (Some a) w) (\<lambda>w1.
       call_hook (suffix lg) (Some a)
         (w1(a := w1 a @ (if showLevel lg then c # '': '' else []) @ body)))"
proof (cases "call_hook (prefix lg) (Some a) w")
  case (Inl f)
  with assms show ?thesis
    by (simp add: printLevel_def and_then_def)
next
  case (Inr w1)
  with assms show ?thesis
    by (simp add: printLevel_def and_then_def print_frame sink_defs NUL_def)
qed

lemma body_text_val: "body_text (Ram (cstr ''val=%d'')) [Arg_int 42] = Inr ''val=42''"
  by (simp add: body_text_def eval_simps)

text \<open>
  Claim C1. For each of the six entry points, with its severity \<open>L\<close>, and every threshold:
  the call writes the formatted body to the sink if and only if \<open>L\<close> is at most the
  threshold. With the gate open the body is appended to the sink between the two hooks,
  after the level indicator if that is enabled; with the gate closed the store is returned
  unchanged. At the threshold \<^verbatim>\<open>LOG_LEVEL_SILENT\<close> no entry point writes.
  The sink is set and the arguments match the format, so that the body is defined.
\<close>

theorem level_gate:
  assumes "(entry, L, c) \<in> set entry_points" and "logOutput lg = Some a"
    and "body_text m args = Inr body"
  shows "entry m args lg w =
           (if L \<le> level lg
            then and_then (call_hook (prefix lg) (Some a) w) (\<lambda>w1.
                   call_hook (suffix lg) (Some a)
                     (w1(a := w1 a @ (if showLevel lg then c # '': '' else []) @ body)))
            else Inr w)
         \<and> (level lg = LOG_LEVEL_SILENT \<longrightarrow> entry m args lg w = Inr w)"
proof -
  from entry_points_cases [OF assms(1)]
  have e: "entry = printLevel L" and L: "1 \<le> L" and c: "levels (L - 1) = Inr c"
    by (simp_all add: fun_eq_iff)
  show ?thesis
  proof (cases "L \<le> level lg")
    case True
    with L printLevel_open [OF True assms(2) c assms(3)] show ?thesis
      by (simp add: e level_defs)
  next
    case False
    then show ?thesis
      by (simp add: e printLevel_def)
  qed
qed

theorem level_gate_witness:
  "(error, LOG_LEVEL_ERROR, CHR ''E'') \<in> set entry_points
   \<and> logOutput (begin_log LOG_LEVEL_WARNING (Some 0) True Logging_new) = Some 0
   \<and> body_text (Ram (cstr ''val=%d'')) [Arg_int 42] = Inr ''val=42''
   \<and> error (Ram (cstr ''val=%d'')) [Arg_int 42]
        (begin_log LOG_LEVEL_WARNING (Some 0) True Logging_new) (\<lambda>_. [])
      = Inr ((\<lambda>_. [])(0 := ''E: val=42''))"
proof -
  let ?lg = "begin_log LOG_LEVEL_WARNING (Some 0) True Logging_new"
  have mem: "(error, LOG_LEVEL_ERROR, CHR ''E'') \<in> set entry_points"
    by (simp add: entry_points_def)
  have out: "logOutput ?lg = Some 0"
    by (simp add: begin_log_def)
  have cfg: "level ?lg = 3" "showLevel ?lg" "prefix ?lg = None" "suffix ?lg = None"
    by (simp_all add: begin_log_def setShowLevel_def setLevel_def constrain_def level_defs
          Logging_new_def)
  from level_gate [OF mem out body_text_val, of "\<lambda>_. []"] mem out body_text_val cfg
  show ?thesis
    by (simp add: call_hook_def and_then_def level_defs)
qed

text \<open>
  Claim C3. For an emitted message the sink receives, in this order and nothing else: the
  text of the prefix hook if one is set; if the level is shown, the letter of the severity
  (\<open>F\<close>, \<open>E\<close>, \<open>W\<close>, \<open>N\<close>, \<open>T\<close>, \<open>V\<close>, as listed in \<open>entry_points\<close>) and the
  literal \<open>'': ''\<close>; the formatted body; the text of the suffix hook if one is set.
  \<^verbatim>\<open>verbose("val=%d", 42)\<close> at the threshold \<^verbatim>\<open>LOG_LEVEL_VERBOSE\<close> gives
  \<open>''V: val=42''\<close> with the level shown and \<open>''val=42''\<close> without.
\<close>

theorem emitted_order:
  assumes "(entry, L, c) \<in> set entry_points" and "L \<le> level lg"
    and "logOutput lg = Some a" and "body_text m args = Inr body"
    and "prefix lg = map_option hook_writing pre" and "suffix lg = map_option hook_writing suf"
  shows "entry m args lg w =
           Inr (w(a := w a @ (case pre of None \<Rightarrow> [] | Some s \<Rightarrow> s)
                          @ (if showLevel lg then c # '': '' else [])
                          @ body
                          @ (case suf of None \<Rightarrow> [] | Some s \<Rightarrow> s)))
         \<and> verbose (Ram (cstr ''val=%d'')) [Arg_int 42]
             (begin_log LOG_LEVEL_VERBOSE (Some a) True Logging_new) w
           = Inr (w(a := w a @ ''V: val=42''))
         \<and> verbose (Ram (cstr ''val=%d'')) [Arg_int 42]
             (begin_log LOG_LEVEL_VERBOSE (Some a) False Logging_new) w
           = Inr (w(a := w a @ ''val=42''))"
proof -
  from entry_points_cases [OF assms(1)]
  have e: "entry = printLevel L" and c: "levels (L - 1) = Inr c"
    by (simp_all add: fun_eq_iff)
  have general: "entry m args lg w =
           Inr (w(a := w a @ (case pre of None \<Rightarrow> [] | Some s \<Rightarrow> s)
                          @ (if showLevel lg then c # '': '' else [])
                          @ body
                          @ (case suf of None \<Rightarrow> [] | Some s \<Rightarrow> s)))"
    using printLevel_open [OF assms(2) assms(3) c assms(4), of w] assms(5) assms(6)
    by (cases pre; cases suf)
       (simp_all add: e call_hook_def and_then_def hook_writing_def sink_write_Some)
  have v: "levels (LOG_LEVEL_VERBOSE - 1) = Inr (CHR ''V'')"
    by (simp add: levels_def level_defs cstr_def)
  have cfg: "level (begin_log LOG_LEVEL_VERBOSE (Some a) b Logging_new) = LOG_LEVEL_VERBOSE"
    "showLevel (begin_log LOG_LEVEL_VERBOSE (Some a) b Logging_new) = b"
    "logOutput (begin_log LOG_LEVEL_VERBOSE (Some a) b Logging_new) = Some a"
    "prefix (begin_log LOG_LEVEL_VERBOSE (Some a) b Logging_new) = None"
    "suffix (begin_log LOG_LEVEL_VERBOSE (Some a) b Logging_new) = None" for b
    by (simp_all add: begin_log_def setShowLevel_def setLevel_def constrain_def level_defs
          Logging_new_def)
  have concrete: "verbose (Ram (cstr ''val=%d'')) [Arg_int 42]
             (begin_log LOG_LEVEL_VERBOSE (Some a) b Logging_new) w
           = Inr (w(a := w a @ (if b then ''V: '' else []) @ ''val=42''))" for b
    using printLevel_open [of LOG_LEVEL_VERBOSE
        "begin_log LOG_LEVEL_VERBOSE (Some a) b Logging_new" a "CHR ''V''"
        "Ram (cstr ''val=%d'')" "[Arg_int 42]" "''val=42''" w]
    by (simp add: verbose_def cfg v body_text_val call_hook_def and_then_def)
  from general concrete [of True] concrete [of False] show ?thesis
    by simp
qed

theorem emitted_order_witness:
  "(error, LOG_LEVEL_ERROR, CHR ''E'') \<in> set entry_points
   \<and> LOG_LEVEL_ERROR \<le> level (setSuffix (Some (hook_writing ''>''))
        (setPrefix (Some (hook_writing ''<''))
          (begin_log LOG_LEVEL_WARNING (Some 0) True Logging_new)))
   \<and> body_text (Ram (cstr ''val=%d'')) [Arg_int 42] = Inr ''val=42''
   \<and> error (Ram (cstr ''val=%d'')) [Arg_int 42]
        (setSuffix (Some (hook_writing ''>''))
          (setPrefix (Some (hook_writing ''<''))
            (begin_log LOG_LEVEL_WARNING (Some 0) True Logging_new))) (\<lambda>_. [])
      = Inr ((\<lambda>_. [])(0 := ''<E: val=42>''))"
proof -
  let ?lg = "setSuffix (Some (hook_writing ''>''))
          (setPrefix (Some (hook_writing ''<''))
            (begin_log LOG_LEVEL_WARNING (Some 0) True Logging_new))"
  have mem: "(error, LOG_LEVEL_ERROR, CHR ''E'') \<in> set entry_points"
    by (simp add: entry_points_def)
  have cfg: "showLevel ?lg"
    by (simp add: setSuffix_def setPrefix_def begin_log_def setShowLevel_def setLevel_def)
  have le: "LOG_LEVEL_ERROR \<le> level ?lg"
    by (simp add: setSuffix_def setPrefix_def begin_log_def setShowLevel_def setLevel_def
          constrain_def level_defs)
  have out: "logOutput ?lg = Some 0"
    by (simp add: setSuffix_def setPrefix_def begin_log_def)
  have pre: "prefix ?lg = map_option hook_writing (Some ''<'')"
    by (simp add: setSuffix_def setPrefix_def)
  have suf: "suffix ?lg = map_option hook_writing (Some ''>'')"
    by (simp add: setSuffix_def)
  from emitted_order [OF mem le out body_text_val pre suf, of "\<lambda>_. []"] mem le cfg
    body_text_val
  show ?thesis
    by simp
qed

text \<open>
  Claim C10, as amended. A default-constructed logger has the threshold
  \<^verbatim>\<open>LOG_LEVEL_SILENT\<close>, shows the level and has a null sink, and
  \<^verbatim>\<open>setShowLevel\<close>, \<^verbatim>\<open>setPrefix\<close> and \<^verbatim>\<open>setSuffix\<close> leave the threshold
  as it is. As long as the threshold is \<^verbatim>\<open>LOG_LEVEL_SILENT\<close>, that is before
  \<^verbatim>\<open>begin\<close> or \<^verbatim>\<open>setLevel\<close> has raised it, every entry point, with any
  format and arguments, returns the store unchanged: nothing is written, no hook runs
  (whatever hooks have been installed), and the null sink is not dereferenced.
\<close>

theorem default_logger_silent:
  assumes "(entry, L, c) \<in> set entry_points" and "level lg = LOG_LEVEL_SILENT"
  shows "level Logging_new = LOG_LEVEL_SILENT \<and> showLevel Logging_new
         \<and> logOutput Logging_new = None
         \<and> level (setShowLevel b lg) = LOG_LEVEL_SILENT
         \<and> level (setPrefix pf lg) = LOG_LEVEL_SILENT
         \<and> level (setSuffix sf lg) = LOG_LEVEL_SILENT
         \<and> entry m args lg w = Inr w"
  using entry_points_cases [OF assms(1)] assms(2)
  by (simp add: printLevel_def Logging_new_def setShowLevel_def setSuffix_def setPrefix_def
        level_defs)

theorem default_logger_silent_witness:
  "(fatal, LOG_LEVEL_FATAL, CHR ''F'') \<in> set entry_points
   \<and> level (setShowLevel True (setSuffix (Some (\<lambda>out w. Inl Hook_fault))
          (setPrefix (Some (hook_writing ''called'')) Logging_new))) = LOG_LEVEL_SILENT
   \<and> fatal (Ram (cstr ''x=%d'')) [Arg_int 1]
       (setShowLevel True (setSuffix (Some (\<lambda>out w. Inl Hook_fault))
          (setPrefix (Some (hook_writing ''called'')) Logging_new))) (\<lambda>_. [])
     = Inr (\<lambda>_. [])"
proof -
  let ?lg = "setShowLevel True (setSuffix (Some (\<lambda>out w. Inl Hook_fault))
          (setPrefix (Some (hook_writing ''called'')) Logging_new))"
  have mem: "(fatal, LOG_LEVEL_FATAL, CHR ''F'') \<in> set entry_points"
    by (simp add: entry_points_def)
  have silent: "level ?lg = LOG_LEVEL_SILENT"
    by (simp add: setShowLevel_def setSuffix_def setPrefix_def Logging_new_def)
  from default_logger_silent [OF mem silent] mem silent show ?thesis
    by simp
qed

text \<open>
  The threshold is what protects the null sink, and \<^verbatim>\<open>setLevel\<close> can raise it
  before \<^verbatim>\<open>begin\<close> or \<^verbatim>\<open>setOutput\<close> has been called: then the sink is still
  null, the gate is open, and \<^verbatim>\<open>fatal("x")\<close> goes through the null pointer when it
  prints the level letter.
\<close>

theorem default_logger_silent_counterexample:
  "logOutput (setLevel LOG_LEVEL_FATAL Logging_new) = None
   \<and> fatal (Ram (cstr ''x'')) [] (setLevel LOG_LEVEL_FATAL Logging_new) (\<lambda>_. [])
       = Inl Null_sink"
  by (simp add: fatal_def printLevel_def setLevel_def Logging_new_def constrain_def level_defs
        call_hook_def and_then_def levels_def cstr_def Print_char_def sink_write_None)

subsection \<open>The format interpreter\<close>

text \<open>
  Claim C5. \<open>''%x''\<close> with 255 gives \<open>''ff''\<close>, \<open>''%X''\<close> with 255 gives \<open>''0xff''\<close>,
  \<open>''%b''\<close> with 5 gives \<open>''101''\<close>, \<open>''%B''\<close> with 5 gives \<open>''0b101''\<close>;
  \<open>''%t''\<close> gives \<open>''T''\<close> for 1 and \<open>''F''\<close> for every other value, \<open>''%T''\<close> gives
  \<open>''true''\<close> for 1 and \<open>''false''\<close> for every other value. The prefixes, the radix
  passed to the sink and the comparison with 1 are the interpreter's; the digits are
  those of the sink as the spec describes it.
\<close>

theorem integer_boolean_renderings:
  "print (Ram (cstr ''%x'')) [Arg_int 255] (Some a) w = Inr (w(a := w a @ ''ff''))
   \<and> print (Ram (cstr ''%X'')) [Arg_int 255] (Some a) w = Inr (w(a := w a @ ''0xff''))
   \<and> print (Ram (cstr ''%b'')) [Arg_int 5] (Some a) w = Inr (w(a := w a @ ''101''))
   \<and> print (Ram (cstr ''%B'')) [Arg_int 5] (Some a) w = Inr (w(a := w a @ ''0b101''))
   \<and> print (Ram (cstr ''%t'')) [Arg_int n] (Some a) w
       = Inr (w(a := w a @ (if n = 1 then ''T'' else ''F'')))
   \<and> print (Ram (cstr ''%T'')) [Arg_int n] (Some a) w
       = Inr (w(a := w a @ (if n = 1 then ''true'' else ''false'')))"
proof -
  have x: "print (Ram (cstr ''%x'')) [Arg_int 255] (Some a) w = Inr (w(a := w a @ ''ff''))"
    by (simp add: eval_simps)
  have X: "print (Ram (cstr ''%X'')) [Arg_int 255] (Some a) w = Inr (w(a := w a @ ''0xff''))"
    by (simp add: eval_simps)
  have b: "print (Ram (cstr ''%b'')) [Arg_int 5] (Some a) w = Inr (w(a := w a @ ''101''))"
    by (simp add: eval_simps)
  have B: "print (Ram (cstr ''%B'')) [Arg_int 5] (Some a) w = Inr (w(a := w a @ ''0b101''))"
    by (simp add: eval_simps)
  have t: "print (Ram (cstr ''%t'')) [Arg_int n] (Some a) w
       = Inr (w(a := w a @ (if n = 1 then ''T'' else ''F'')))"
    by (simp add: eval_simps)
  have T: "print (Ram (cstr ''%T'')) [Arg_int n] (Some a) w
       = Inr (w(a := w a @ (if n = 1 then ''true'' else ''false'')))"
    by (simp add: eval_simps)
  from x X b B t T show ?thesis
    by blast
qed

theorem integer_boolean_renderings_witness:
  "print (Ram (cstr ''%t'')) [Arg_int 1] (Some 0) (\<lambda>_. []) = Inr ((\<lambda>_. [])(0 := ''T''))
   \<and> print (Ram (cstr ''%t'')) [Arg_int 0] (Some 0) (\<lambda>_. []) = Inr ((\<lambda>_. [])(0 := ''F''))
   \<and> print (Ram (cstr ''%T'')) [Arg_int 1] (Some 0) (\<lambda>_. []) = Inr ((\<lambda>_. [])(0 := ''true''))
   \<and> print (Ram (cstr ''%T'')) [Arg_int 0] (Some 0) (\<lambda>_. []) = Inr ((\<lambda>_. [])(0 := ''false''))"
  using integer_boolean_renderings [of 0 "\<lambda>_. []" 1]
    integer_boolean_renderings [of 0 "\<lambda>_. []" 0]
  by simp

text \<open>
  Claim C6. Where the scan meets the sequence \<open>''%%''\<close> (a marker followed by the
  specifier \<open>%\<close>), the interpreter writes the single character \<open>%\<close> to the sink,
  consumes no argument, and goes on after the sequence; on both format paths.
\<close>

theorem percent_literal:
  assumes "i + 1 < length buf" and "buf ! i = CHR ''%''" and "buf ! (i + 1) = CHR ''%''"
  shows "printFormat (buf ! (i + 1)) args (Some a) w = Inr (args, w(a := w a @ ''%''))
         \<and> print_ram buf i args (Some a) w
           = print_ram buf (i + 2) args (Some a) (w(a := w a @ ''%''))
         \<and> (i + 2 < length buf \<longrightarrow>
              print_flash_loop buf (buf ! i) (Suc i) args (Some a) w
              = print_flash_loop buf (buf ! (i + 2)) (Suc (i + 2)) args (Some a)
                  (w(a := w a @ ''%'')))"
proof -
  have pf: "printFormat (CHR ''%'') args (Some a) w = Inr (args, w(a := w a @ ''%''))"
    by (simp add: printFormat_def and_then_def sink_defs)
  have ram: "print_ram buf i args (Some a) w
           = print_ram buf (i + 2) args (Some a) (w(a := w a @ ''%''))"
    using assms by (simp add: print_ram_conv pf)
  have flash: "print_flash_loop buf (buf ! i) (Suc i) args (Some a) w
              = print_flash_loop buf (buf ! (i + 2)) (Suc (i + 2)) args (Some a)
                  (w(a := w a @ ''%''))" if "i + 2 < length buf"
    using that assms(1) ram
      print_flash_loop_eq [of i buf args "Some a" w]
      print_flash_loop_eq [of "i + 2" buf args "Some a" "w(a := w a @ ''%'')"]
    by simp
  from pf ram flash assms(3) show ?thesis
    by simp
qed

theorem percent_literal_witness:
  "3 + 1 < length (cstr ''100%% %d'') \<and> cstr ''100%% %d'' ! 3 = CHR ''%''
   \<and> cstr ''100%% %d'' ! (3 + 1) = CHR ''%''
   \<and> print_ram (cstr ''100%% %d'') 3 [Arg_int 7] (Some 0) (\<lambda>_. [])
       = print_ram (cstr ''100%% %d'') (3 + 2) [Arg_int 7] (Some 0) ((\<lambda>_. [])(0 := ''%''))
   \<and> print (Ram (cstr ''100%% %d'')) [Arg_int 7] (Some 0) (\<lambda>_. [])
       = Inr ((\<lambda>_. [])(0 := ''100% 7''))"
proof -
  have h1: "3 + 1 < length (cstr ''100%% %d'')"
    and h2: "cstr ''100%% %d'' ! 3 = CHR ''%''"
    and h3: "cstr ''100%% %d'' ! (3 + 1) = CHR ''%''"
    by (simp_all add: cstr_def)
  have run: "print (Ram (cstr ''100%% %d'')) [Arg_int 7] (Some 0) (\<lambda>_. [])
       = Inr ((\<lambda>_. [])(0 := ''100% 7''))"
    by (simp add: eval_simps)
  from percent_literal [OF h1 h2 h3, of "[Arg_int 7]" 0 "\<lambda>_. []"] h1 h2 h3 run
  show ?thesis
    by simp
qed

text \<open>
  Claim C7. A specifier that is none of \<open>% s S I P d i D F x X b B l u c t T\<close> is
  consumed: nothing is written for it, no argument is taken, no fault or diagnostic is
  raised (whatever the sink), and the scan goes on two positions further.
\<close>

theorem unrecognized_specifier:
  assumes "c \<notin> set ''%sSIPdiDFxXbBluctT''"
  shows "printFormat c args out w = Inr (args, w)
         \<and> (i + 1 < length buf \<longrightarrow> buf ! i = CHR ''%'' \<longrightarrow> buf ! (i + 1) = c \<longrightarrow>
              print_ram buf i args out w = print_ram buf (i + 2) args out w)"
  using assms
  by (simp add: print_ram_conv printFormat_unrecognized del: set_simps)

theorem unrecognized_specifier_witness:
  "CHR ''q'' \<notin> set ''%sSIPdiDFxXbBluctT''
   \<and> printFormat (CHR ''q'') [Arg_int 7] (Some 0) (\<lambda>_. []) = Inr ([Arg_int 7], \<lambda>_. [])
   \<and> print_ram (cstr ''a%qb%d'') 1 [Arg_int 7] (Some 0) (\<lambda>_. [])
       = print_ram (cstr ''a%qb%d'') (1 + 2) [Arg_int 7] (Some 0) (\<lambda>_. [])
   \<and> print (Ram (cstr ''a%qb%d'')) [Arg_int 7] (Some 0) (\<lambda>_. []) = Inr ((\<lambda>_. [])(0 := ''ab7''))"
proof -
  have h: "CHR ''q'' \<notin> set ''%sSIPdiDFxXbBluctT''"
    by simp
  have pos: "1 + 1 < length (cstr ''a%qb%d'')" "cstr ''a%qb%d'' ! 1 = CHR ''%''"
    "cstr ''a%qb%d'' ! (1 + 1) = CHR ''q''"
    by (simp_all add: cstr_def)
  have run: "print (Ram (cstr ''a%qb%d'')) [Arg_int 7] (Some 0) (\<lambda>_. [])
      = Inr ((\<lambda>_. [])(0 := ''ab7''))"
    by (simp add: eval_simps)
  from unrecognized_specifier [OF h, where args = "[Arg_int 7]" and out = "Some 0"
      and w = "\<lambda>_. []" and i = 1 and buf = "cstr ''a%qb%d''"] h pos run
  show ?thesis
    by simp
qed

text \<open>
  The terminator itself is such a specifier when a format ends in a lone \<open>%\<close>: the scan
  steps over it and reads past the end of the buffer.
\<close>

lemma lone_percent_at_end:
  "print (Ram (cstr ''50%'')) [] (Some a) w = Inl Out_of_bounds"
  by (simp add: eval_simps)

end
